theory Spec2Isabelle
  imports Complex_Main
begin

section \<open>Python values used by the two scripts\<close>

text \<open>
  The repository holds two near-duplicate scripts, \<^verbatim>\<open>clsi guideline to protocol/hello.py\<close>
  and \<^verbatim>\<open>clsi_guidelines_minimiser_agent/main.py\<close>. Where a function is textually the
  same in both (\<^verbatim>\<open>chunk_text\<close>, \<^verbatim>\<open>estimate_latex_word_count\<close>, \<^verbatim>\<open>trim_latex_content\<close>
  up to the default of \<^verbatim>\<open>max_words\<close>) it is embedded once; where the two differ
  (\<^verbatim>\<open>extract_pdf_text\<close>, \<^verbatim>\<open>process_clsi_guideline\<close>) the embedding carries the prefix
  \<open>hello_\<close> or \<open>main_\<close>.

  A Python \<^verbatim>\<open>str\<close> is a sequence of Unicode code points, so it is a list of naturals here
  (\<open>length\<close> is Python's \<^verbatim>\<open>len\<close>). ASCII literals are written as HOL strings and mapped
  into code points by \<open>lit\<close>.
\<close>

type_synonym pystr = "nat list"

definition lit :: "string \<Rightarrow> pystr" where
  "lit s = map of_char s"

datatype py_error =
    ValueError          \<comment> \<open>\<^verbatim>\<open>range() arg 3 must not be zero\<close>\<close>
  | ZeroDivisionError   \<comment> \<open>\<^verbatim>\<open>int / 0\<close>\<close>
  | OverflowError pystr \<comment> \<open>a magnitude that does not fit a binary64 float, with its message\<close>
  | Failure pystr       \<comment> \<open>any other \<^verbatim>\<open>Exception\<close> of a library call, with its \<^verbatim>\<open>str(e)\<close>\<close>

subsection \<open>\<^verbatim>\<open>range(start, stop, step)\<close> and \<^verbatim>\<open>xs[lo:hi]\<close>\<close>

text \<open>
  CPython computes the number of elements of a range first; the elements are
  \<open>start + k * step\<close>. A zero step raises \<^verbatim>\<open>ValueError\<close>.
\<close>

definition range_length :: "int \<Rightarrow> int \<Rightarrow> int \<Rightarrow> nat" where
  "range_length start stop step =
     (if 0 < step \<and> start < stop then nat (1 + (stop - 1 - start) div step)
      else if step < 0 \<and> stop < start then nat (1 + (start - 1 - stop) div (- step))
      else 0)"

definition py_range :: "int \<Rightarrow> int \<Rightarrow> int \<Rightarrow> py_error + int list" where
  "py_range start stop step =
     (if step = 0 then Inl ValueError
      else Inr (map (\<lambda>k. start + int k * step) [0..<range_length start stop step]))"

text \<open>
  A slice bound is first adjusted to the sequence: a negative bound counts from the end,
  and every bound is clipped into \<open>0 .. len\<close>. A slice never raises.
\<close>

definition adjust_index :: "nat \<Rightarrow> int \<Rightarrow> nat" where
  "adjust_index len i =
     (if i < 0 then (if i + int len < 0 then 0 else nat (i + int len))
      else if int len \<le> i then len else nat i)"

definition py_slice :: "'a list \<Rightarrow> int \<Rightarrow> int \<Rightarrow> 'a list" where
  "py_slice xs lo hi =
     (let a = adjust_index (length xs) lo; b = adjust_index (length xs) hi
      in take (b - a) (drop a xs))"

definition py_slice_to :: "'a list \<Rightarrow> int \<Rightarrow> 'a list" where
  \<comment> \<open>\<^verbatim>\<open>xs[:hi]\<close>\<close>
  "py_slice_to xs hi = take (adjust_index (length xs) hi) xs"

subsection \<open>\<^verbatim>\<open>str\<close> methods\<close>

text \<open>
  \<^verbatim>\<open>str.strip()\<close> and \<^verbatim>\<open>str.split()\<close> without arguments work on the characters for which
  \<^verbatim>\<open>str.isspace()\<close> holds; these are the code points below.
\<close>

definition py_isspace :: "nat \<Rightarrow> bool" where
  "py_isspace c =
     ((9 \<le> c \<and> c \<le> 13) \<or> (28 \<le> c \<and> c \<le> 32) \<or> c = 133 \<or> c = 160 \<or> c = 5760
      \<or> (8192 \<le> c \<and> c \<le> 8202) \<or> c = 8232 \<or> c = 8233 \<or> c = 8239 \<or> c = 8287
      \<or> c = 12288)"

definition py_strip :: "pystr \<Rightarrow> pystr" where
  "py_strip s = rev (dropWhile py_isspace (rev (dropWhile py_isspace s)))"

text \<open>
  \<^verbatim>\<open>s.split()\<close>: the maximal runs of non-whitespace characters, in order. The first
  argument is the run read so far.
\<close>

fun split_from :: "pystr \<Rightarrow> pystr \<Rightarrow> pystr list" where
  "split_from cur [] = (if cur = [] then [] else [cur])"
| "split_from cur (c # cs) =
     (if py_isspace c then (if cur = [] then split_from [] cs else cur # split_from [] cs)
      else split_from (cur @ [c]) cs)"

definition py_split :: "pystr \<Rightarrow> pystr list" where
  "py_split s = split_from [] s"

text \<open>\<^verbatim>\<open>needle in hay\<close> on strings: \<open>needle\<close> occurs at some position of \<open>hay\<close>.\<close>

fun py_contains :: "pystr \<Rightarrow> pystr \<Rightarrow> bool" where
  "py_contains needle [] = (needle = [])"
| "py_contains needle (c # cs) =
     (take (length needle) (c # cs) = needle \<or> py_contains needle cs)"

definition py_endswith :: "pystr \<Rightarrow> pystr \<Rightarrow> bool" where
  "py_endswith s suffix =
     (length suffix \<le> length s \<and> drop (length s - length suffix) s = suffix)"

text \<open>
  \<^verbatim>\<open>str.lower()\<close> on the ASCII letters. Code points above 127 are left as they are: no
  such code point lowers to a string containing \<^verbatim>\<open>.\<close>, \<^verbatim>\<open>p\<close>, \<^verbatim>\<open>d\<close> or \<^verbatim>\<open>f\<close>, so the
  only use of \<^verbatim>\<open>lower\<close> in the scripts, \<^verbatim>\<open>pdf_path.lower().endswith('.pdf')\<close>, is not
  affected.
\<close>

definition py_lower :: "pystr \<Rightarrow> pystr" where
  "py_lower s = map (\<lambda>c. if 65 \<le> c \<and> c \<le> 90 then c + 32 else c) s"

text \<open>\<^verbatim>\<open>str(n)\<close> for a non-negative integer: its decimal digits.\<close>

fun str_nat :: "nat \<Rightarrow> pystr" where
  "str_nat n = (if n < 10 then [48 + n] else str_nat (n div 10) @ [48 + n mod 10])"

declare str_nat.simps [simp del]

text \<open>
  \<^verbatim>\<open>str(e)\<close> of an exception. \<^verbatim>\<open>ValueError\<close> and \<^verbatim>\<open>ZeroDivisionError\<close> have one raising
  place each in this development, hence one message.
\<close>

fun py_str_exception :: "py_error \<Rightarrow> pystr" where
  "py_str_exception ValueError = lit ''range() arg 3 must not be zero''"
| "py_str_exception ZeroDivisionError = lit ''division by zero''"
| "py_str_exception (OverflowError msg) = msg"
| "py_str_exception (Failure msg) = msg"

section \<open>\<^verbatim>\<open>chunk_text\<close>\<close>

text \<open>
  \<^verbatim>\<open>return [text[i:i + max_chars] for i in range(0, len(text), max_chars)]\<close>
\<close>

definition chunk_text :: "'a list \<Rightarrow> int \<Rightarrow> py_error + 'a list list" where
  "chunk_text text max_chars =
     (case py_range 0 (int (length text)) max_chars of
        Inl e \<Rightarrow> Inl e
      | Inr is \<Rightarrow> Inr (map (\<lambda>i. py_slice text i (i + max_chars)) is))"


section \<open>\<^verbatim>\<open>estimate_latex_word_count\<close>\<close>

subsection \<open>The regular expression\<close>

text \<open>
  \<^verbatim>\<open>re.sub(r'\\[^ ]+{.*?}|\\[a-zA-Z]+|\{|\}', '', text)\<close>

  The pattern uses literals, alternation, sequencing, and repetitions of single-character
  sets: the greedy \<^verbatim>\<open>[^ ]+\<close> and \<^verbatim>\<open>[a-zA-Z]+\<close> and the lazy \<^verbatim>\<open>.*?\<close>. (The \<^verbatim>\<open>{\<close> after
  \<^verbatim>\<open>[^ ]+\<close> opens no valid repetition count, so \<^verbatim>\<open>re\<close> reads it as a literal brace.)
\<close>

datatype rx =
    Lit nat                     \<comment> \<open>one given character\<close>
  | OneOrMore "nat \<Rightarrow> bool"     \<comment> \<open>\<^verbatim>\<open>[...]+\<close>, greedy\<close>
  | LazyMany "nat \<Rightarrow> bool"      \<comment> \<open>\<^verbatim>\<open>[...]*?\<close>, lazy\<close>
  | Seq rx rx
  | Alt rx rx

text \<open>
  \<open>rx_match r s\<close> lists what is left of \<open>s\<close> after each way \<open>r\<close> can match a prefix of
  \<open>s\<close>, in the order in which a backtracking matcher tries them: the longest run first for
  a greedy repetition, the shortest first for a lazy one, the left alternative before the
  right one. The head of the list is the match \<^verbatim>\<open>re\<close> reports.
\<close>

fun rx_match :: "rx \<Rightarrow> pystr \<Rightarrow> pystr list" where
  "rx_match (Lit c) s = (case s of [] \<Rightarrow> [] | x # t \<Rightarrow> if x = c then [t] else [])"
| "rx_match (OneOrMore p) s =
     map (\<lambda>j. drop j s) (rev [1..<Suc (length (takeWhile p s))])"
| "rx_match (LazyMany p) s =
     map (\<lambda>j. drop j s) [0..<Suc (length (takeWhile p s))]"
| "rx_match (Seq a b) s = concat (map (rx_match b) (rx_match a s))"
| "rx_match (Alt a b) s = rx_match a s @ rx_match b s"

definition is_ascii_letter :: "nat \<Rightarrow> bool" where
  "is_ascii_letter c = ((97 \<le> c \<and> c \<le> 122) \<or> (65 \<le> c \<and> c \<le> 90))"

text \<open>
  Code points: 92 backslash, 32 space, 123 and 125 the braces, 10 the newline that
  \<^verbatim>\<open>.\<close> does not match.
\<close>

definition latex_pattern :: rx where
  "latex_pattern =
     Alt (Seq (Lit 92) (Seq (OneOrMore (\<lambda>c. c \<noteq> 32))
            (Seq (Lit 123) (Seq (LazyMany (\<lambda>c. c \<noteq> 10)) (Lit 125)))))
    (Alt (Seq (Lit 92) (OneOrMore is_ascii_letter))
    (Alt (Lit 123) (Lit 125)))"

text \<open>
  \<^verbatim>\<open>re.sub(pattern, '', text)\<close> scans the text from left to right. Where the pattern
  matches, the matched characters are dropped and the scan resumes behind the match;
  elsewhere the character is copied. The first argument counts the characters of the
  current match that are still to be dropped. (A match of no characters drops nothing;
  \<open>latex_pattern\<close> has none.)
\<close>

fun sub_empty :: "rx \<Rightarrow> nat \<Rightarrow> pystr \<Rightarrow> pystr" where
  "sub_empty r k [] = []"
| "sub_empty r (Suc k) (c # t) = sub_empty r k t"
| "sub_empty r 0 (c # t) =
     (case rx_match r (c # t) of
        [] \<Rightarrow> c # sub_empty r 0 t
      | rest # _ \<Rightarrow>
          if length rest \<le> length t then sub_empty r (length t - length rest) t
          else c # sub_empty r 0 t)"

definition re_sub_empty :: "rx \<Rightarrow> pystr \<Rightarrow> pystr" where
  "re_sub_empty r text = sub_empty r 0 text"

subsection \<open>Files\<close>

text \<open>
  A file system, as far as the scripts see it: what reading a path in text mode gives
  (the decoded text, or the exception of \<^verbatim>\<open>open\<close> or of the decoder), and whether opening
  the path for writing fails. Text is what Python hands to the program, after decoding
  and newline translation.
\<close>

record filesystem =
  read_text :: "pystr \<Rightarrow> py_error + pystr"
  write_failure :: "pystr \<Rightarrow> py_error option"

definition write_text :: "filesystem \<Rightarrow> pystr \<Rightarrow> pystr \<Rightarrow> py_error + filesystem" where
  "write_text fs path content =
     (case write_failure fs path of
        Some e \<Rightarrow> Inl e
      | None \<Rightarrow> Inr (fs\<lparr>read_text := (read_text fs)(path := Inr content)\<rparr>))"

text \<open>What the two functions print; the exception stands for its \<^verbatim>\<open>str(e)\<close>.\<close>

datatype message =
    ErrorEstimating py_error    \<comment> \<open>\<^verbatim>\<open>Error estimating word count: ...\<close>\<close>
  | ErrorTrimming py_error      \<comment> \<open>\<^verbatim>\<open>Error trimming LaTeX file: ...\<close>\<close>
  | Trimmed pystr int           \<comment> \<open>\<^verbatim>\<open>Trimmed ... to approximate ... words.\<close>\<close>

text \<open>
  \<^verbatim>\<open>
  try:
      with open(latex_file, 'r', encoding='utf-8') as f:
          text = f.read()
      clean_text = re.sub(r'\\[^ ]+{.*?}|\\[a-zA-Z]+|\{|\}', '', text)
      words = len(clean_text.split())
      return words
  except Exception as e:
      print(f"Error estimating word count: {str(e)}")
      return 0
  \<close>
  The result is the returned count and what was printed.
\<close>

definition count_words :: "pystr \<Rightarrow> nat" where
  "count_words text = length (py_split (re_sub_empty latex_pattern text))"

definition estimate_latex_word_count :: "filesystem \<Rightarrow> pystr \<Rightarrow> nat \<times> message list" where
  "estimate_latex_word_count fs latex_file =
     (case read_text fs latex_file of
        Inl e \<Rightarrow> (0, [ErrorEstimating e])
      | Inr text \<Rightarrow> (count_words text, []))"

section \<open>\<^verbatim>\<open>trim_latex_content\<close>\<close>

subsection \<open>Binary64 arithmetic\<close>

text \<open>
  \<^verbatim>\<open>int(len(lines) * (max_words / word_count))\<close> divides two integers into a \<^verbatim>\<open>float\<close>,
  multiplies an integer by that \<^verbatim>\<open>float\<close>, and truncates. A finite \<^verbatim>\<open>float\<close> is an IEEE 754
  binary64 number: \<open>Finite m e\<close> stands for \<open>m * 2 ^ e\<close>. Each operation gives the exact
  result rounded to the nearest binary64 number, ties to the even mantissa.
\<close>

datatype float = Finite int int | Infinity

definition round_half_even :: "int \<Rightarrow> int \<Rightarrow> int" where
  \<comment> \<open>the integer nearest to \<open>num / den\<close>, for \<open>0 < den\<close>\<close>
  "round_half_even num den =
     (let q = num div den; r = num mod den
      in if 2 * r < den then q
         else if den < 2 * r then q + 1
         else if even q then q else q + 1)"

fun bit_length :: "nat \<Rightarrow> nat" where
  "bit_length n = (if n = 0 then 0 else Suc (bit_length (n div 2)))"

declare bit_length.simps [simp del]

text \<open>
  The binary64 number nearest to \<open>num / den\<close>, for \<open>0 \<le> num\<close> and \<open>0 < den\<close>, as mantissa
  and exponent. With \<open>ex\<close> the exponent of the leading bit of the quotient, the mantissa
  has 53 bits; below \<open>2 ^ - 1022\<close> the numbers are subnormal and the spacing stays
  \<open>2 ^ - 1074\<close>.
\<close>

definition round_to_double :: "int \<Rightarrow> int \<Rightarrow> int \<times> int" where
  "round_to_double num den =
     (if num = 0 then (0, 0)
      else
        let d = int (bit_length (nat num)) - int (bit_length (nat den));
            ex = (if den * 2 ^ nat d \<le> num * 2 ^ nat (- d) then d else d - 1);
            e = max ex (- 1022) - 52
        in (round_half_even (num * 2 ^ nat (- e)) (den * 2 ^ nat e), e))"

definition too_large :: "int \<times> int \<Rightarrow> bool" where
  \<comment> \<open>at or beyond \<open>2 ^ 1024\<close>: not a finite binary64 number\<close>
  "too_large x = (case x of (m, e) \<Rightarrow> 0 \<le> e \<and> 2 ^ 1024 \<le> m * 2 ^ nat e)"

definition py_true_div :: "int \<Rightarrow> int \<Rightarrow> py_error + float" where
  \<comment> \<open>\<^verbatim>\<open>a / b\<close> on two \<^verbatim>\<open>int\<close>s\<close>
  "py_true_div a b =
     (if b = 0 then Inl ZeroDivisionError
      else
        let x = round_to_double \<bar>a\<bar> \<bar>b\<bar>
        in if too_large x
           then Inl (OverflowError (lit ''integer division result too large for a float''))
           else Inr (Finite (sgn a * sgn b * fst x) (snd x)))"

definition py_float_of_int :: "int \<Rightarrow> py_error + float" where
  \<comment> \<open>the conversion of the \<^verbatim>\<open>int\<close> operand of \<^verbatim>\<open>int * float\<close>\<close>
  "py_float_of_int n =
     (let x = round_to_double \<bar>n\<bar> 1
      in if too_large x then Inl (OverflowError (lit ''int too large to convert to float''))
         else Inr (Finite (sgn n * fst x) (snd x)))"

fun float_mul :: "float \<Rightarrow> float \<Rightarrow> float" where
  \<comment> \<open>a product beyond the range is an infinity, not an exception\<close>
  "float_mul (Finite m1 e1) (Finite m2 e2) =
     (let x = round_to_double (\<bar>m1 * m2\<bar> * 2 ^ nat (e1 + e2)) (2 ^ nat (- (e1 + e2)))
      in if too_large x then Infinity
         else Finite (sgn (m1 * m2) * fst x) (snd x))"
| "float_mul _ _ = Infinity"

fun py_int_of_float :: "float \<Rightarrow> py_error + int" where
  \<comment> \<open>\<^verbatim>\<open>int(x)\<close> truncates towards zero\<close>
  "py_int_of_float (Finite m e) =
     Inr (if 0 \<le> e then m * 2 ^ nat e else sgn m * (\<bar>m\<bar> div 2 ^ nat (- e)))"
| "py_int_of_float Infinity =
     Inl (OverflowError (lit ''cannot convert float infinity to integer''))"

text \<open>\<^verbatim>\<open>int(len(lines) * (max_words / word_count))\<close>, with \<open>n\<close> for \<^verbatim>\<open>len(lines)\<close>.\<close>

definition trimmed_length :: "int \<Rightarrow> int \<Rightarrow> int \<Rightarrow> py_error + int" where
  "trimmed_length n max_words word_count =
     (case py_true_div max_words word_count of
        Inl e \<Rightarrow> Inl e
      | Inr fraction \<Rightarrow>
          (case py_float_of_int n of
             Inl e \<Rightarrow> Inl e
           | Inr len \<Rightarrow> py_int_of_float (float_mul len fraction)))"

subsection \<open>The function\<close>

text \<open>
  \<^verbatim>\<open>f.readlines()\<close>: the text cut behind every newline (code point 10); the pieces keep
  their newline. The first argument is the line read so far.
\<close>

fun lines_from :: "pystr \<Rightarrow> pystr \<Rightarrow> pystr list" where
  "lines_from cur [] = (if cur = [] then [] else [cur])"
| "lines_from cur (c # cs) =
     (if c = 10 then (cur @ [c]) # lines_from [] cs else lines_from (cur @ [c]) cs)"

definition readlines :: "pystr \<Rightarrow> pystr list" where
  "readlines text = lines_from [] text"

text \<open>
  \<^verbatim>\<open>
  word_count = estimate_latex_word_count(latex_file)
  if word_count <= max_words:
      return
  try:
      with open(latex_file, 'r', encoding='utf-8') as f:
          lines = f.readlines()
      trimmed_lines = lines[:int(len(lines) * (max_words / word_count))]
      with open(latex_file, 'w', encoding='utf-8') as f:
          f.writelines(trimmed_lines)
      print(f"Trimmed {latex_file} to approximate {max_words} words.")
  except Exception as e:
      print(f"Error trimming LaTeX file: {str(e)}")
  \<close>
  The result is the file system afterwards and what was printed.
\<close>

definition trim_lines :: "filesystem \<Rightarrow> pystr \<Rightarrow> int \<Rightarrow> nat \<Rightarrow> py_error + filesystem" where
  \<comment> \<open>the body of the \<^verbatim>\<open>try\<close>\<close>
  "trim_lines fs latex_file max_words word_count =
     (case read_text fs latex_file of
        Inl e \<Rightarrow> Inl e
      | Inr text \<Rightarrow>
          let lines = readlines text
          in (case trimmed_length (int (length lines)) max_words (int word_count) of
                Inl e \<Rightarrow> Inl e
              | Inr k \<Rightarrow> write_text fs latex_file (concat (py_slice_to lines k))))"

definition trim_latex_content :: "filesystem \<Rightarrow> pystr \<Rightarrow> int \<Rightarrow> filesystem \<times> message list" where
  "trim_latex_content fs latex_file max_words =
     (case estimate_latex_word_count fs latex_file of
        (word_count, printed) \<Rightarrow>
          if int word_count \<le> max_words then (fs, printed)
          else (case trim_lines fs latex_file max_words word_count of
                  Inl e \<Rightarrow> (fs, printed @ [ErrorTrimming e])
                | Inr fs' \<Rightarrow> (fs', printed @ [Trimmed latex_file max_words])))"

section \<open>\<^verbatim>\<open>extract_pdf_text\<close>\<close>

text \<open>
  The libraries the function calls are its environment. A page is what \<^verbatim>\<open>get_text()\<close>
  gives for it, an image is what \<^verbatim>\<open>pytesseract.image_to_string\<close> gives for it; each can be
  an exception. \<^verbatim>\<open>convert_from_path\<close> is called without a page range in \<^verbatim>\<open>hello.py\<close> and
  with \<^verbatim>\<open>first_page\<close> and \<^verbatim>\<open>last_page\<close> in \<^verbatim>\<open>main.py\<close>. \<open>path_exists\<close> and \<open>path_stem\<close>
  stand for \<^verbatim>\<open>os.path.exists\<close> and
  \<^verbatim>\<open>os.path.splitext(os.path.basename(pdf_path))[0]\<close>.
\<close>

record document =
  page_texts :: "(py_error + pystr) list"
  close_failure :: "py_error option"

record world =
  path_exists :: "pystr \<Rightarrow> bool"
  path_stem :: "pystr \<Rightarrow> pystr"
  fitz_open :: "pystr \<Rightarrow> py_error + document"
  convert_from_path :: "pystr \<Rightarrow> (nat \<times> nat) option \<Rightarrow> py_error + (py_error + pystr) list"

text \<open>
  \<^verbatim>\<open>
  for page in doc:
      page_text = page.get_text()
      if page_text:
          text += page_text + "\n"
  \<close>
\<close>

fun page_loop :: "(py_error + pystr) list \<Rightarrow> pystr \<Rightarrow> py_error + pystr" where
  "page_loop [] text = Inr text"
| "page_loop (Inl e # pages) text = Inl e"
| "page_loop (Inr page_text # pages) text =
     page_loop pages (if page_text \<noteq> [] then text @ page_text @ [10] else text)"

text \<open>
  \<^verbatim>\<open>
  for image in images:
      ocr_text += pytesseract.image_to_string(image) + "\n"
  \<close>
\<close>

fun image_loop :: "(py_error + pystr) list \<Rightarrow> pystr \<Rightarrow> py_error + pystr" where
  "image_loop [] ocr_text = Inr ocr_text"
| "image_loop (Inl e # images) ocr_text = Inl e"
| "image_loop (Inr s # images) ocr_text = image_loop images (ocr_text @ s @ [10])"

definition ocr_fallback ::
  "world \<Rightarrow> pystr \<Rightarrow> (nat \<times> nat) option \<Rightarrow> pystr \<Rightarrow> py_error + pystr" where
  \<comment> \<open>from \<^verbatim>\<open>convert_from_path\<close> to the \<^verbatim>\<open>return\<close>; the last argument is the sentinel\<close>
  "ocr_fallback w pdf_path page_range sentinel =
     (case convert_from_path w pdf_path page_range of
        Inl e \<Rightarrow> Inl e
      | Inr images \<Rightarrow>
          (case image_loop images [] of
             Inl e \<Rightarrow> Inl e
           | Inr ocr_text \<Rightarrow> Inr (if py_strip ocr_text \<noteq> [] then ocr_text else sentinel)))"

definition error_marker :: pystr where
  "error_marker = lit ''Error extracting text from PDF: ''"

text \<open>
  \<^verbatim>\<open>try: ... except Exception as e: return f"Error extracting text from PDF: {str(e)}"\<close>
  around a body that returns a string or raises.
\<close>

definition catch_extraction :: "py_error + pystr \<Rightarrow> py_error + pystr" where
  "catch_extraction body =
     (case body of Inl e \<Rightarrow> Inr (error_marker @ py_str_exception e) | Inr text \<Rightarrow> Inr text)"

text \<open>
  What the two loops build when no page and no image fails: the non-empty page texts,
  and the recognised texts of all images, each followed by a newline, in order.
\<close>

definition embedded_text :: "pystr list \<Rightarrow> pystr" where
  "embedded_text texts = concat (map (\<lambda>t. if t \<noteq> [] then t @ [10] else []) texts)"

definition recognised_text :: "pystr list \<Rightarrow> pystr" where
  "recognised_text texts = concat (map (\<lambda>t. t @ [10]) texts)"

subsection \<open>\<^verbatim>\<open>hello.py\<close>\<close>

definition hello_no_text :: pystr where
  "hello_no_text = lit ''No text extracted via OCR.''"

definition hello_extract_body :: "world \<Rightarrow> pystr \<Rightarrow> py_error + pystr" where
  "hello_extract_body w pdf_path =
     (case fitz_open w pdf_path of
        Inl e \<Rightarrow> Inl e
      | Inr doc \<Rightarrow>
          (case page_loop (page_texts doc) [] of
             Inl e \<Rightarrow> Inl e
           | Inr text \<Rightarrow>
               (case close_failure doc of
                  Some e \<Rightarrow> Inl e
                | None \<Rightarrow>
                    if py_strip text \<noteq> [] then Inr text
                    else ocr_fallback w pdf_path None hello_no_text)))"

definition hello_extract_pdf_text :: "world \<Rightarrow> pystr \<Rightarrow> py_error + pystr" where
  "hello_extract_pdf_text w pdf_path = catch_extraction (hello_extract_body w pdf_path)"

subsection \<open>\<^verbatim>\<open>main.py\<close>\<close>

text \<open>
  The page numbers are naturals: the script calls the function with \<^verbatim>\<open>start_page=0\<close> and
  \<^verbatim>\<open>end_page=76\<close> only. The pages read are those of
  \<^verbatim>\<open>range(start_page, min(end_page, len(doc)))\<close>. The sentinel is
  \<^verbatim>\<open>f"No text extracted from pages {start_page+1}-{end_page} via OCR."\<close>, with an en dash
  (code point 8211) where this text has a hyphen.
\<close>

definition main_no_text :: "nat \<Rightarrow> nat \<Rightarrow> pystr" where
  "main_no_text start_page end_page =
     lit ''No text extracted from pages '' @ str_nat (start_page + 1) @ [8211]
       @ str_nat end_page @ lit '' via OCR.''"

definition main_extract_body :: "world \<Rightarrow> pystr \<Rightarrow> nat \<Rightarrow> nat \<Rightarrow> py_error + pystr" where
  "main_extract_body w pdf_path start_page end_page =
     (case fitz_open w pdf_path of
        Inl e \<Rightarrow> Inl e
      | Inr doc \<Rightarrow>
          (case page_loop
                  (map (\<lambda>page_num. page_texts doc ! page_num)
                       [start_page..<min end_page (length (page_texts doc))]) [] of
             Inl e \<Rightarrow> Inl e
           | Inr text \<Rightarrow>
               (case close_failure doc of
                  Some e \<Rightarrow> Inl e
                | None \<Rightarrow>
                    if py_strip text \<noteq> [] then Inr text
                    else ocr_fallback w pdf_path (Some (start_page + 1, end_page))
                           (main_no_text start_page end_page))))"

definition main_extract_pdf_text :: "world \<Rightarrow> pystr \<Rightarrow> nat \<Rightarrow> nat \<Rightarrow> py_error + pystr" where
  "main_extract_pdf_text w pdf_path start_page end_page =
     catch_extraction (main_extract_body w pdf_path start_page end_page)"

section \<open>\<^verbatim>\<open>process_clsi_guideline\<close>\<close>

text \<open>
  How a call ends: the process exits (\<^verbatim>\<open>sys.exit\<close>), an exception leaves the function, or
  it goes on. Of \<^verbatim>\<open>process_clsi_guideline\<close> the part up to the call
  \<^verbatim>\<open>create_tasks(pdf_text, guideline_code)\<close> is embedded; \<open>create_tasks\<close> stands for that
  call and all that follows it.
\<close>

datatype 'r outcome = SysExit int | Raised py_error | Proceeds 'r

definition validate_pdf :: "world \<Rightarrow> pystr \<Rightarrow> bool outcome" where
  "validate_pdf w pdf_path =
     (if \<not> path_exists w pdf_path then SysExit 1
      else if \<not> py_endswith (py_lower pdf_path) (lit ''.pdf'') then SysExit 1
      else Proceeds True)"

text \<open>
  \<^verbatim>\<open>hello.py\<close>: the check of the extracted text is commented out.
  \<^verbatim>\<open>
  validate_pdf(pdf_path)
  guideline_code = os.path.splitext(os.path.basename(pdf_path))[0]
  pdf_text = extract_pdf_text(pdf_path)
  #if "Error" in pdf_text or not pdf_text.strip():
  #    print(pdf_text if "Error" in pdf_text else "No text extracted from PDF.")
  #    sys.exit(1)
  tasks = create_tasks(pdf_text, guideline_code)
  \<close>
\<close>

definition hello_process_clsi_guideline ::
  "world \<Rightarrow> (pystr \<Rightarrow> pystr \<Rightarrow> 'r) \<Rightarrow> pystr \<Rightarrow> 'r outcome" where
  "hello_process_clsi_guideline w create_tasks pdf_path =
     (case validate_pdf w pdf_path of
        SysExit n \<Rightarrow> SysExit n
      | Raised e \<Rightarrow> Raised e
      | Proceeds _ \<Rightarrow>
          let guideline_code = path_stem w pdf_path
          in (case hello_extract_pdf_text w pdf_path of
                Inl e \<Rightarrow> Raised e
              | Inr pdf_text \<Rightarrow> Proceeds (create_tasks pdf_text guideline_code)))"

text \<open>
  \<^verbatim>\<open>main.py\<close>:
  \<^verbatim>\<open>
  pdf_text = extract_pdf_text(pdf_path, start_page=0, end_page=76)
  if "Error" in pdf_text or not pdf_text.strip():
      print(pdf_text if "Error" in pdf_text else "No text extracted.")
      sys.exit(1)
  tasks = create_tasks(pdf_text, guideline_code)
  \<close>
\<close>

definition main_process_clsi_guideline ::
  "world \<Rightarrow> (pystr \<Rightarrow> pystr \<Rightarrow> 'r) \<Rightarrow> pystr \<Rightarrow> 'r outcome" where
  "main_process_clsi_guideline w create_tasks pdf_path =
     (case validate_pdf w pdf_path of
        SysExit n \<Rightarrow> SysExit n
      | Raised e \<Rightarrow> Raised e
      | Proceeds _ \<Rightarrow>
          let guideline_code = path_stem w pdf_path
          in (case main_extract_pdf_text w pdf_path 0 76 of
                Inl e \<Rightarrow> Raised e
              | Inr pdf_text \<Rightarrow>
                  if py_contains (lit ''Error'') pdf_text \<or> py_strip pdf_text = []
                  then SysExit 1
                  else Proceeds (create_tasks pdf_text guideline_code)))"

section \<open>Concrete inputs\<close>

text \<open>
  A file system in which every path holds the given text and can be written; one in which
  no path can be read; a text of \<open>n\<close> lines with the one word \<^verbatim>\<open>w\<close> each.
\<close>

definition holding :: "pystr \<Rightarrow> filesystem" where
  "holding s = \<lparr>read_text = (\<lambda>path. Inr s), write_failure = (\<lambda>path. None)\<rparr>"

definition unreadable :: "py_error \<Rightarrow> filesystem" where
  "unreadable e = \<lparr>read_text = (\<lambda>path. Inl e), write_failure = (\<lambda>path. None)\<rparr>"

definition one_word_lines :: "nat \<Rightarrow> pystr" where
  "one_word_lines n = concat (replicate n [119, 10])"

text \<open>
  An environment in which every path exists and no PDF can be opened; and one in which
  every PDF opens, with the given page texts, and rasterizes into images with the given
  recognised texts.
\<close>

definition failing_open :: "py_error \<Rightarrow> world" where
  "failing_open e =
     \<lparr>path_exists = (\<lambda>path. True), path_stem = (\<lambda>path. path),
      fitz_open = (\<lambda>path. Inl e), convert_from_path = (\<lambda>path pages. Inr [])\<rparr>"

definition scanned :: "pystr list \<Rightarrow> pystr list \<Rightarrow> world" where
  "scanned texts ocr =
     \<lparr>path_exists = (\<lambda>path. True), path_stem = (\<lambda>path. path),
      fitz_open = (\<lambda>path. Inr \<lparr>page_texts = map Inr texts, close_failure = None\<rparr>),
      convert_from_path = (\<lambda>path pages. Inr (map Inr ocr))\<rparr>"

section \<open>Properties of \<^verbatim>\<open>chunk_text\<close>\<close>

lemma div_shift:
  assumes "0 < (k::nat)" and "n \<noteq> 0"
  shows "(n + k - 1) div k = Suc ((n - 1) div k)"
proof -
  have "n + k - 1 = (n - 1) + k" using assms(2) by arith
  then have "(n + k - 1) div k = ((n - 1) + k) div k" by (rule arg_cong)
  also have "\<dots> = Suc ((n - 1) div k)" using assms(1) by simp
  finally show ?thesis .
qed

lemma range_length_pos:
  assumes "0 < m"
  shows "range_length 0 (int n) m = (n + nat m - 1) div nat m"
proof (cases "n = 0")
  case True
  with assms show ?thesis by (simp add: range_length_def)
next
  case False
  define k where "k = nat m"
  have k: "m = int k" and kpos: "0 < k"
    using assms by (simp_all add: k_def)
  have "int n - 1 = int (n - 1)" using False by simp
  then have "(int n - 1) div int k = int ((n - 1) div k)"
    by (simp only: of_nat_div)
  then have "nat (1 + (int n - 1) div int k) = Suc ((n - 1) div k)"
    by simp
  also have "\<dots> = (n + k - 1) div k"
    using div_shift [OF kpos False] by simp
  finally have "nat (1 + (int n - 1) div int k) = (n + k - 1) div k" .
  moreover have "range_length 0 (int n) m = nat (1 + (int n - 1) div int k)"
    using False kpos by (simp add: range_length_def k)
  moreover have "nat m = k" by (simp add: k_def)
  ultimately show ?thesis by simp
qed

lemma py_slice_window:
  assumes "0 < m"
  shows "py_slice xs (int k * m) (int k * m + m) = take (nat m) (drop (k * nat m) xs)"
proof -
  define j where "j = nat m"
  have j: "m = int j" and jpos: "0 < j"
    using assms by (simp_all add: j_def)
  let ?n = "length xs"
  have lo: "adjust_index ?n (int k * m) = min ?n (k * j)"
    unfolding adjust_index_def j by (simp add: min_def flip: of_nat_mult)
  have hi: "adjust_index ?n (int k * m + m) = min ?n (k * j + j)"
    unfolding adjust_index_def j by (simp add: min_def flip: of_nat_mult of_nat_add)
  show ?thesis
  proof (cases "k * j \<le> ?n")
    case True
    then have "take (min ?n (k * j + j) - k * j) (drop (k * j) xs) = take j (drop (k * j) xs)"
      by (simp add: min_def)
    with True lo hi j show ?thesis by (simp add: py_slice_def Let_def min_def)
  next
    case False
    with lo hi j show ?thesis by (simp add: py_slice_def Let_def min_def)
  qed
qed

lemma chunk_text_pos:
  assumes "0 < m"
  shows "chunk_text xs m =
           Inr (map (\<lambda>k. take (nat m) (drop (k * nat m) xs))
                    [0..<(length xs + nat m - 1) div nat m])"
  using assms by (simp add: chunk_text_def py_range_def range_length_pos py_slice_window o_def)

lemma concat_windows:
  "concat (map (\<lambda>k. take m (drop (k * m) xs)) [0..<n]) = take (n * m) xs"
proof (induction n)
  case 0
  show ?case by simp
next
  case (Suc n)
  have "take (n * m) xs @ take m (drop (n * m) xs) = take (n * m + m) xs"
    by (simp add: take_add)
  with Suc show ?case by (simp add: add.commute)
qed

lemma windows_cover:
  assumes "0 < (m::nat)"
  shows "n \<le> ((n + m - 1) div m) * m"
proof -
  have "n + m - 1 = ((n + m - 1) div m) * m + (n + m - 1) mod m" by simp
  moreover have "(n + m - 1) mod m < m" using assms by simp
  ultimately show ?thesis by linarith
qed

text \<open>
  C1. For every text and every maximum chunk size \<open>M > 0\<close>, \<^verbatim>\<open>chunk_text\<close> returns a list of
  chunks whose concatenation, in order, is the text itself.
\<close>

theorem chunk_text_concat:
  assumes "0 < M"
  shows "\<exists>cs. chunk_text T M = Inr cs \<and> concat cs = T"
proof -
  let ?m = "nat M"
  let ?n = "(length T + ?m - 1) div ?m"
  have "0 < ?m" using assms by simp
  then have "length T \<le> ?n * ?m" by (rule windows_cover)
  then have "take (?n * ?m) T = T" by simp
  then show ?thesis
    using assms by (simp add: chunk_text_pos concat_windows)
qed

theorem chunk_text_concat_witness:
  "\<exists>cs. chunk_text [1, 2, 3, 4, 5 :: nat] 2 = Inr cs \<and> concat cs = [1, 2, 3, 4, 5]"
  using chunk_text_concat [of 2 "[1, 2, 3, 4, 5 :: nat]"] by simp

lemma windows_tight:
  assumes "0 < (m::nat)"
  shows "((n + m - 1) div m) * m < n + m"
proof -
  have "((n + m - 1) div m) * m \<le> n + m - 1" by simp
  with assms show ?thesis by linarith
qed

lemma ceil_div_nat:
  assumes "0 < (m::nat)"
  shows "\<lceil>real n / real m\<rceil> = int ((n + m - 1) div m)"
proof -
  let ?q = "(n + m - 1) div m"
  have mpos: "0 < real m" using assms by simp
  have "real n \<le> real (?q * m)"
    using windows_cover [OF assms, of n] by (simp only: of_nat_le_iff)
  then have up: "real n / real m \<le> real ?q"
    using mpos by (simp add: pos_divide_le_eq)
  have "real (?q * m) < real (n + m)"
    using windows_tight [OF assms, of n] by (simp only: of_nat_less_iff)
  then have "real ?q * real m - real m < real n" by simp
  then have "(real ?q - 1) * real m < real n" by (simp add: algebra_simps)
  then have lo: "real ?q - 1 < real n / real m"
    using mpos by (simp add: pos_less_divide_eq)
  show ?thesis
    using up lo by (simp add: ceiling_eq_iff)
qed

text \<open>
  C2. For every text and every maximum chunk size \<open>M > 0\<close>, every chunk that \<^verbatim>\<open>chunk_text\<close>
  returns has at most \<open>M\<close> characters, the number of chunks is \<open>ceil(len(T) / M)\<close>, and the
  empty text gives the empty list of chunks.
\<close>

theorem chunk_text_bounds:
  assumes "0 < M"
  shows "\<exists>cs. chunk_text T M = Inr cs
            \<and> (\<forall>c \<in> set cs. int (length c) \<le> M)
            \<and> int (length cs) = \<lceil>real (length T) / real_of_int M\<rceil>
            \<and> chunk_text ([] :: 'a list) M = Inr []"
proof -
  define m where "m = nat M"
  have m: "M = int m" and mpos: "0 < m" using assms by (simp_all add: m_def)
  let ?cs = "map (\<lambda>k. take m (drop (k * m) T)) [0..<(length T + m - 1) div m]"
  have eq: "chunk_text T M = Inr ?cs"
    using chunk_text_pos [OF assms, of T] by (simp add: m_def)
  have len: "\<forall>c \<in> set ?cs. int (length c) \<le> M"
    by (auto simp: m)
  have "real_of_int M = real m" by (simp add: m)
  then have cnt: "int (length ?cs) = \<lceil>real (length T) / real_of_int M\<rceil>"
    using ceil_div_nat [OF mpos, of "length T"] by simp
  have emp: "chunk_text ([] :: 'a list) M = Inr []"
    using assms by (simp add: chunk_text_def py_range_def range_length_def)
  from eq len cnt emp show ?thesis by blast
qed

theorem chunk_text_bounds_witness:
  "\<exists>cs. chunk_text [1, 2, 3, 4, 5 :: nat] 2 = Inr cs
            \<and> (\<forall>c \<in> set cs. int (length c) \<le> 2)
            \<and> int (length cs) = \<lceil>real (length [1, 2, 3, 4, 5 :: nat]) / real_of_int 2\<rceil>
            \<and> chunk_text ([] :: nat list) 2 = Inr []"
  using chunk_text_bounds [of 2 "[1, 2, 3, 4, 5 :: nat]"] by simp

text \<open>
  C10. \<^verbatim>\<open>chunk_text\<close> does not check that the maximum chunk size is positive: for a negative
  size it returns the empty list whatever the text is, and for the size zero it raises
  (the \<^verbatim>\<open>ValueError\<close> of \<^verbatim>\<open>range\<close>) instead of returning.
\<close>

theorem chunk_text_nonpositive:
  "(M < 0 \<longrightarrow> chunk_text T M = Inr []) \<and> chunk_text T 0 = Inl ValueError"
  by (simp add: chunk_text_def py_range_def range_length_def)

theorem chunk_text_nonpositive_witness:
  "(- 3 :: int) < 0 \<and> chunk_text [1, 2, 3, 4, 5 :: nat] (- 3) = Inr []
     \<and> chunk_text [1, 2, 3, 4, 5 :: nat] 0 = Inl ValueError"
  using chunk_text_nonpositive [of "- 3" "[1, 2, 3, 4, 5 :: nat]"] by simp

section \<open>Properties of \<^verbatim>\<open>estimate_latex_word_count\<close>\<close>

lemmas word_count_defs = count_words_def re_sub_empty_def latex_pattern_def lit_def py_split_def
  py_isspace_def is_ascii_letter_def


lemma count_words_two_backslashes:
  "count_words (92 # 92 # lit ''section{Intro} word1 word2'') = 2"
  by (simp add: word_count_defs)

lemma strip_one_backslash:
  "re_sub_empty latex_pattern (92 # lit ''section{Intro} word1 word2'') = lit '' word1 word2''"
  by (simp add: word_count_defs)















section \<open>Properties of \<^verbatim>\<open>trim_latex_content\<close>\<close>

text \<open>
  C5. When the estimated word count is at or below the target, \<^verbatim>\<open>trim_latex_content\<close>
  returns at once: the file system is as before, nothing is printed beyond what the
  estimate printed, and trimming again gives the same.
\<close>

theorem trim_under_budget:
  assumes "int (fst (estimate_latex_word_count fs p)) \<le> W"
  shows "trim_latex_content fs p W = (fs, snd (estimate_latex_word_count fs p))
         \<and> trim_latex_content (fst (trim_latex_content fs p W)) p W = trim_latex_content fs p W"
proof -
  have one: "trim_latex_content fs p W = (fs, snd (estimate_latex_word_count fs p))"
    using assms by (cases "estimate_latex_word_count fs p") (simp add: trim_latex_content_def)
  then show ?thesis by simp
qed

theorem trim_under_budget_witness:
  "int (fst (estimate_latex_word_count (holding (lit ''one two'')) (lit ''a.tex''))) \<le> 5
   \<and> trim_latex_content (holding (lit ''one two'')) (lit ''a.tex'') 5 = (holding (lit ''one two''), [])
   \<and> trim_latex_content (fst (trim_latex_content (holding (lit ''one two'')) (lit ''a.tex'') 5))
        (lit ''a.tex'') 5
      = trim_latex_content (holding (lit ''one two'')) (lit ''a.tex'') 5"
proof -
  have c: "count_words (lit ''one two'') = 2" by (simp add: word_count_defs)
  have e: "estimate_latex_word_count (holding (lit ''one two'')) (lit ''a.tex'') = (2, [])"
    by (simp add: estimate_latex_word_count_def holding_def c)
  have h: "int (fst (estimate_latex_word_count (holding (lit ''one two'')) (lit ''a.tex''))) \<le> 5"
    by (simp add: e)
  show ?thesis
    using trim_under_budget [OF h] h by (simp add: e)
qed

text \<open>
  C9. For a file that cannot be read, \<^verbatim>\<open>estimate_latex_word_count\<close> returns 0 (and prints the
  error) instead of raising, and \<^verbatim>\<open>trim_latex_content\<close> leaves the file system as it is;
  for every target \<open>W \<ge> 0\<close> it does so by the under-budget return, printing nothing of its
  own.
\<close>

theorem unreadable_not_trimmed:
  assumes "read_text fs p = Inl e"
  shows "estimate_latex_word_count fs p = (0, [ErrorEstimating e])
         \<and> fst (trim_latex_content fs p W) = fs
         \<and> (0 \<le> W \<longrightarrow> trim_latex_content fs p W = (fs, [ErrorEstimating e]))"
  using assms
  by (simp add: estimate_latex_word_count_def trim_latex_content_def trim_lines_def)

theorem unreadable_not_trimmed_witness:
  "read_text (unreadable (Failure (lit ''No such file''))) (lit ''a.tex'')
     = Inl (Failure (lit ''No such file''))
   \<and> (0::int) \<le> 4000
   \<and> estimate_latex_word_count (unreadable (Failure (lit ''No such file''))) (lit ''a.tex'')
       = (0, [ErrorEstimating (Failure (lit ''No such file''))])
   \<and> trim_latex_content (unreadable (Failure (lit ''No such file''))) (lit ''a.tex'') 4000
       = (unreadable (Failure (lit ''No such file'')),
          [ErrorEstimating (Failure (lit ''No such file''))])"
proof -
  have h: "read_text (unreadable (Failure (lit ''No such file''))) (lit ''a.tex'')
             = Inl (Failure (lit ''No such file''))"
    by (simp add: unreadable_def)
  show ?thesis
    using unreadable_not_trimmed [OF h, of 4000] h by simp
qed

subsection \<open>Over budget\<close>

lemmas float_defs = trimmed_length_def py_true_div_def py_float_of_int_def round_to_double_def
  too_large_def round_half_even_def Let_def bit_length.simps

lemma concat_lines_from: "concat (lines_from cur s) = cur @ s"
  by (induction s arbitrary: cur) simp_all

lemma concat_readlines: "concat (readlines s) = s"
  by (simp add: readlines_def concat_lines_from)

lemma no_match_at_w: "rx_match latex_pattern (119 # s) = []"
  by (simp add: latex_pattern_def)

lemma no_match_at_newline: "rx_match latex_pattern (10 # s) = []"
  by (simp add: latex_pattern_def)

lemma sub_empty_one_word_lines:
  "sub_empty latex_pattern 0 (one_word_lines n) = one_word_lines n"
  by (induction n) (simp_all add: one_word_lines_def no_match_at_w no_match_at_newline)

lemma split_one_word_lines:
  "split_from [] (one_word_lines n) = replicate n [119]"
  by (induction n) (simp_all add: one_word_lines_def py_isspace_def)

lemma count_one_word_lines: "count_words (one_word_lines n) = n"
  by (simp add: count_words_def re_sub_empty_def py_split_def sub_empty_one_word_lines
      split_one_word_lines)

lemma readlines_one_word_lines:
  "readlines (one_word_lines n) = replicate n [119, 10]"
  unfolding readlines_def by (induction n) (simp_all add: one_word_lines_def)

lemma length_one_word_lines: "length (one_word_lines n) = 2 * n"
  by (induction n) (simp_all add: one_word_lines_def)

lemma first_one_word_lines:
  assumes "k \<le> n"
  shows "concat (take k (readlines (one_word_lines n))) = one_word_lines k"
proof -
  have "take k (readlines (one_word_lines n)) = replicate k [119, 10]"
    using assms by (simp only: readlines_one_word_lines take_replicate min_absorb1)
  then show ?thesis by (simp only: one_word_lines_def)
qed

lemma length_22: "trimmed_length 22 15 22 = Inr 14"
  by (simp add: float_defs)

lemma round_half_even_nonneg:
  assumes "0 \<le> num" and "0 < den"
  shows "0 \<le> round_half_even num den"
proof -
  have "0 \<le> num div den" using assms by (simp add: pos_imp_zdiv_nonneg_iff)
  then show ?thesis by (simp add: round_half_even_def Let_def)
qed

lemma round_to_double_nonneg:
  assumes "0 \<le> num" and "0 < den"
  shows "0 \<le> fst (round_to_double num den)"
proof (cases "num = 0")
  case True
  then show ?thesis by (simp add: round_to_double_def)
next
  case False
  have "0 \<le> round_half_even (num * 2 ^ k) (den * 2 ^ j)" for k j :: nat
    using assms by (intro round_half_even_nonneg) simp_all
  with False show ?thesis by (simp add: round_to_double_def Let_def)
qed

lemma py_int_of_float_nonneg:
  assumes "py_int_of_float (Finite m e) = Inr k" and "0 \<le> m"
  shows "0 \<le> k"
proof -
  have "0 \<le> \<bar>m\<bar> div 2 ^ nat (- e)" by (simp add: pos_imp_zdiv_nonneg_iff)
  then have "0 \<le> sgn m * (\<bar>m\<bar> div 2 ^ nat (- e))"
    using assms(2) by (simp add: sgn_if)
  moreover have "0 \<le> m * 2 ^ nat e" using assms(2) by simp
  ultimately show ?thesis using assms(1) by (auto split: if_splits)
qed

lemma trimmed_length_nonneg:
  assumes "trimmed_length n W E = Inr k" and "0 \<le> n" and "0 \<le> W" and "0 \<le> E"
  shows "0 \<le> k"
proof -
  from assms(1) obtain f l where f: "py_true_div W E = Inr f" and l: "py_float_of_int n = Inr l"
    and k: "py_int_of_float (float_mul l f) = Inr k"
    by (auto simp: trimmed_length_def split: sum.splits)
  from f obtain m2 e2 where f2: "f = Finite m2 e2" and m2: "0 \<le> m2"
  proof -
    have "E \<noteq> 0" using f by (auto simp: py_true_div_def split: if_splits)
    then have "0 < \<bar>E\<bar>" by simp
    then have "0 \<le> fst (round_to_double \<bar>W\<bar> \<bar>E\<bar>)" by (intro round_to_double_nonneg) simp_all
    then have "0 \<le> sgn W * sgn E * fst (round_to_double \<bar>W\<bar> \<bar>E\<bar>)"
      using assms(3,4) by (simp add: sgn_if)
    with f that show thesis
      by (auto simp: py_true_div_def Let_def split: if_splits)
  qed
  from l obtain m1 e1 where l1: "l = Finite m1 e1" and m1: "0 \<le> m1"
  proof -
    have "0 \<le> fst (round_to_double \<bar>n\<bar> 1)" by (intro round_to_double_nonneg) simp_all
    then have "0 \<le> sgn n * fst (round_to_double \<bar>n\<bar> 1)"
      using assms(2) by (simp add: sgn_if)
    with l that show thesis
      by (auto simp: py_float_of_int_def Let_def split: if_splits)
  qed
  have p: "0 \<le> m1 * m2" using m1 m2 by simp
  from k obtain m e where prod: "float_mul l f = Finite m e"
    by (cases "float_mul l f") auto
  have "0 \<le> m"
  proof -
    let ?x = "round_to_double (\<bar>m1 * m2\<bar> * 2 ^ nat (e1 + e2)) (2 ^ nat (- (e1 + e2)))"
    have "0 \<le> fst ?x" by (intro round_to_double_nonneg) simp_all
    then have "0 \<le> sgn (m1 * m2) * fst ?x" using p by (simp add: sgn_if)
    with prod show ?thesis
      unfolding l1 f2 by (auto simp: Let_def split: if_splits)
  qed
  with k prod show ?thesis by (intro py_int_of_float_nonneg [of m e k]) simp_all
qed

text \<open>
  C4, as the claim states it, fails. A file of 22 lines with one word each has an estimate
  of 22 words; with the target 15 the claim keeps the first \<open>floor(22 * 15 / 22) = 15\<close>
  lines. \<^verbatim>\<open>15 / 22\<close> is rounded to a binary64 number below the quotient, \<^verbatim>\<open>22 * (15 / 22)\<close>
  to the binary64 number next below 15, and \<^verbatim>\<open>int\<close> truncates it to 14: the file is
  overwritten with its first 14 lines.
\<close>

theorem trim_keeps_fourteen_of_twenty_two:
  "(15::int) < int (fst (estimate_latex_word_count (holding (one_word_lines 22)) (lit ''a.tex'')))
   \<and> read_text (fst (trim_latex_content (holding (one_word_lines 22)) (lit ''a.tex'') 15))
         (lit ''a.tex'')
       \<noteq> Inr (concat (take
             (nat \<lfloor>real (length (readlines (one_word_lines 22))) * 15
                    / real (fst (estimate_latex_word_count (holding (one_word_lines 22))
                                   (lit ''a.tex'')))\<rfloor>)
             (readlines (one_word_lines 22))))"
proof -
  let ?fs = "holding (one_word_lines 22)"
  have e: "estimate_latex_word_count ?fs (lit ''a.tex'') = (22, [])"
    by (simp add: estimate_latex_word_count_def holding_def count_one_word_lines)
  have t: "trim_lines ?fs (lit ''a.tex'') 15 22
            = Inr (?fs\<lparr>read_text := (read_text ?fs)(lit ''a.tex'' := Inr (one_word_lines 14))\<rparr>)"
  proof -
    have "py_slice_to (readlines (one_word_lines 22)) 14 = take 14 (readlines (one_word_lines 22))"
      by (simp add: py_slice_to_def adjust_index_def readlines_one_word_lines)
    then have "concat (py_slice_to (readlines (one_word_lines 22)) 14) = one_word_lines 14"
      by (simp only: first_one_word_lines)
    then show ?thesis
      by (simp add: trim_lines_def holding_def readlines_one_word_lines length_22
          write_text_def Let_def)
  qed
  have f: "nat \<lfloor>real (length (readlines (one_word_lines 22))) * 15 / 22\<rfloor> = 15"
    by (simp add: readlines_one_word_lines)
  have "length (one_word_lines 14) \<noteq> length (one_word_lines 15)"
    by (simp add: length_one_word_lines)
  then have d: "one_word_lines 14 \<noteq> one_word_lines 15" by auto
  have c: "concat (take 15 (readlines (one_word_lines 22))) = one_word_lines 15"
    by (simp add: first_one_word_lines)
  show ?thesis
    using d by (simp add: e trim_latex_content_def t f c)
qed

text \<open>That the arithmetic raises nothing for the lengths and counts that occur.\<close>

lemma bit_length_mono: "m \<le> n \<Longrightarrow> bit_length m \<le> bit_length n"
proof (induction n arbitrary: m rule: bit_length.induct)
  case (1 n)
  show ?case
  proof (cases "m = 0")
    case True
    then show ?thesis by (simp add: bit_length.simps)
  next
    case False
    with "1.prems" have n: "n \<noteq> 0" by simp
    have "m div 2 \<le> n div 2" using "1.prems" by (rule div_le_mono)
    then have "bit_length (m div 2) \<le> bit_length (n div 2)" using "1.IH" n by simp
    then show ?thesis
      using False n by (simp add: bit_length.simps [of m] bit_length.simps [of n])
  qed
qed

lemma bit_length_shift: "0 < n \<Longrightarrow> bit_length (n * 2 ^ k) = bit_length n + k"
proof (induction k)
  case 0
  show ?case by simp
next
  case (Suc k)
  have "bit_length (n * 2 ^ Suc k)
          = (if n * 2 ^ Suc k = 0 then 0 else Suc (bit_length (n * 2 ^ Suc k div 2)))"
    by (rule bit_length.simps)
  moreover have "n * 2 ^ Suc k div 2 = n * 2 ^ k" by simp
  moreover have "n * 2 ^ Suc k \<noteq> 0" using Suc.prems by simp
  ultimately have "bit_length (n * 2 ^ Suc k) = Suc (bit_length (n * 2 ^ k))"
    by (simp only: if_False)
  then show ?case using Suc by simp
qed

lemma round_half_even_le: 
  assumes "0 < den"
  shows "round_half_even num den \<le> num div den + 1"
  by (simp add: round_half_even_def Let_def)

lemma round_half_even_one: "round_half_even x 1 = x"
  by (simp add: round_half_even_def Let_def)

text \<open>The exponent and, for a non-negative exponent, the mantissa of a rounded quotient
  below \<open>2 ^ K\<close>.\<close>

lemma round_to_double_bounds:
  assumes "0 < num" and "0 < den" and "num < den * 2 ^ K"
  shows "snd (round_to_double num den) \<le> int K - 52"
    and "0 \<le> snd (round_to_double num den) \<Longrightarrow> fst (round_to_double num den) \<le> 2 ^ K"
proof -
  define d where "d = int (bit_length (nat num)) - int (bit_length (nat den))"
  define ex where "ex = (if den * 2 ^ nat d \<le> num * 2 ^ nat (- d) then d else d - 1)"
  define e where "e = max ex (- 1022) - 52"
  have rd: "round_to_double num den
              = (round_half_even (num * 2 ^ nat (- e)) (den * 2 ^ nat e), e)"
    using assms(1) by (simp add: round_to_double_def Let_def d_def ex_def e_def)
  have "nat num \<le> nat den * 2 ^ K"
  proof -
    have "num \<le> den * 2 ^ K" using assms(3) by simp
    then have "nat num \<le> nat (den * 2 ^ K)" by simp
    also have "nat (den * 2 ^ K) = nat den * 2 ^ K"
      using assms(2) by (simp add: nat_mult_distrib nat_power_eq)
    finally show ?thesis .
  qed
  then have "bit_length (nat num) \<le> bit_length (nat den * 2 ^ K)" by (rule bit_length_mono)
  also have "\<dots> = bit_length (nat den) + K"
    using assms(2) by (simp add: bit_length_shift)
  finally have "d \<le> int K" by (simp add: d_def)
  moreover have "ex \<le> d" by (simp add: ex_def)
  ultimately have e: "e \<le> int K - 52" by (simp add: e_def)
  then show "snd (round_to_double num den) \<le> int K - 52" by (simp add: rd)
  show "fst (round_to_double num den) \<le> 2 ^ K" if "0 \<le> snd (round_to_double num den)"
  proof -
    from that have e0: "0 \<le> e" by (simp add: rd)
    then have m: "fst (round_to_double num den) = round_half_even num (den * 2 ^ nat e)"
      by (simp add: rd)
    have dpos: "0 < den * 2 ^ nat e" using assms(2) by simp
    have "den \<le> den * 2 ^ nat e" using assms(2) by simp
    then have "num div (den * 2 ^ nat e) \<le> num div den"
      using assms(1,2) by (intro zdiv_mono2) simp_all
    moreover have "num div den < 2 ^ K"
    proof -
      have "den * (num div den) + num mod den = num" by simp
      moreover have "0 \<le> num mod den" using assms(2) by simp
      ultimately have "den * (num div den) \<le> num" by linarith
      then have "den * (num div den) < den * 2 ^ K" using assms(3) by simp
      then show ?thesis using assms(2) by (simp only: mult_less_cancel_left_pos)
    qed
    ultimately have "num div (den * 2 ^ nat e) + 1 \<le> 2 ^ K" by simp
    with round_half_even_le [OF dpos, of num] show ?thesis by (simp add: m)
  qed
qed

lemma not_too_large:
  assumes "0 \<le> num" and "0 < den" and "num < den * 2 ^ K" and "K \<le> 500"
  shows "\<not> too_large (round_to_double num den)"
proof (cases "num = 0")
  case True
  then show ?thesis by (simp add: round_to_double_def too_large_def)
next
  case False
  with assms(1) have pos: "0 < num" by simp
  obtain m e where me: "round_to_double num den = (m, e)" by (cases "round_to_double num den")
  show ?thesis
  proof
    assume "too_large (round_to_double num den)"
    then have e0: "0 \<le> e" and big: "(2::int) ^ 1024 \<le> m * 2 ^ nat e"
      by (simp_all add: too_large_def me)
    have eK: "e \<le> int K - 52"
      using round_to_double_bounds(1) [OF pos assms(2,3)] by (simp add: me)
    have mK: "m \<le> 2 ^ K"
      using round_to_double_bounds(2) [OF pos assms(2,3)] e0 by (simp add: me)
    have "nat e \<le> K" using eK by simp
    then have "(2::int) ^ nat e \<le> 2 ^ K" by (simp add: power_increasing)
    with mK have "m * 2 ^ nat e \<le> 2 ^ K * 2 ^ K"
      by (intro mult_mono) simp_all
    also have "\<dots> = (2::int) ^ (K + K)" by (simp add: power_add)
    also have "\<dots> \<le> 2 ^ 1000" using assms(4) by (intro power_increasing) simp_all
    also have "\<dots> < (2::int) ^ 1024" by simp
    finally show False using big by simp
  qed
qed

lemma round_to_double_fst:
  assumes "0 < num"
  shows "fst (round_to_double num den)
           = round_half_even (num * 2 ^ nat (- snd (round_to_double num den)))
               (den * 2 ^ nat (snd (round_to_double num den)))"
  using assms by (simp add: round_to_double_def Let_def)

lemma two_powi: "(2::real) ^ nat t / 2 ^ nat (- t) = 2 powi t"
  by (cases "0 \<le> t") (simp_all add: power_int_def field_simps)

text \<open>The quotient of \<open>0 \<le> W < E\<close> is a float of value at most 1.\<close>

lemma fraction_at_most_one:
  assumes "0 \<le> W" and "W < E"
  obtains m e where "py_true_div W E = Inr (Finite m e)" and "0 \<le> m"
    and "real_of_int m * 2 powi e \<le> 1"
proof -
  have E: "0 < E" "E \<noteq> 0" "\<bar>E\<bar> = E" "\<bar>W\<bar> = W" using assms by simp_all
  let ?x = "round_to_double W E"
  have small: "W < E * 2 ^ 0" using assms by simp
  have ok: "\<not> too_large ?x"
    using not_too_large [OF assms(1) E(1) small] by simp
  have m0: "0 \<le> fst ?x" using assms(1) E(1) by (rule round_to_double_nonneg)
  have sg: "sgn W * sgn E * fst ?x = fst ?x"
  proof (cases "W = 0")
    case True
    then show ?thesis by (simp add: round_to_double_def)
  next
    case False
    with assms(1) E(1) show ?thesis by (simp add: sgn_if)
  qed
  have eq: "py_true_div W E = Inr (Finite (fst ?x) (snd ?x))"
    using ok sg by (simp add: py_true_div_def E Let_def)
  have val: "real_of_int (fst ?x) * 2 powi (snd ?x) \<le> 1"
  proof (cases "W = 0")
    case True
    then show ?thesis by (simp add: round_to_double_def)
  next
    case False
    with assms(1) have W: "0 < W" by simp
    define e where "e = snd ?x"
    have e: "e \<le> - 52"
      using round_to_double_bounds(1) [OF W E(1) small] by (simp add: e_def)
    then have ne: "nat e = 0" by simp
    have m: "fst ?x = round_half_even (W * 2 ^ nat (- e)) E"
      using round_to_double_fst [OF W, of E] by (simp add: e_def [symmetric] ne)
    have "W * 2 ^ nat (- e) div E < 2 ^ nat (- e)"
    proof -
      have "E * (W * 2 ^ nat (- e) div E) + W * 2 ^ nat (- e) mod E = W * 2 ^ nat (- e)"
        by simp
      moreover have "0 \<le> W * 2 ^ nat (- e) mod E" using E(1) by simp
      ultimately have "E * (W * 2 ^ nat (- e) div E) \<le> W * 2 ^ nat (- e)" by linarith
      also have "\<dots> < E * 2 ^ nat (- e)" using assms(2) by simp
      finally show ?thesis using E(1) by (simp only: mult_less_cancel_left_pos)
    qed
    then have "fst ?x \<le> 2 ^ nat (- e)"
      using round_half_even_le [OF E(1), of "W * 2 ^ nat (- e)"] by (simp add: m)
    then have le: "real_of_int (fst ?x) \<le> 2 ^ nat (- e)"
      by (metis of_int_le_iff of_int_numeral of_int_power)
    have pw: "(2::real) powi e = 1 / 2 ^ nat (- e)"
      using two_powi [of e] by (simp add: ne)
    have "real_of_int (fst ?x) * 2 powi e = real_of_int (fst ?x) / 2 ^ nat (- e)"
      by (simp add: pw)
    also have "\<dots> \<le> 2 ^ nat (- e) / 2 ^ nat (- e)"
      using le by (intro divide_right_mono) simp_all
    also have "\<dots> = 1" by simp
    finally show ?thesis by (simp add: e_def)
  qed
  from eq m0 val that show thesis by blast
qed

text \<open>A length below \<open>2 ^ 63\<close> (the largest length of a Python list) converts to a float
  below \<open>2 ^ 75\<close>.\<close>

lemma length_as_float:
  assumes "0 \<le> n" and "n < 2 ^ 63"
  obtains m e where "py_float_of_int n = Inr (Finite m e)" and "0 \<le> m"
    and "real_of_int m * 2 powi e < 2 ^ 75"
proof -
  let ?x = "round_to_double n 1"
  have n: "\<bar>n\<bar> = n" using assms(1) by simp
  have small: "n < 1 * 2 ^ 63" using assms(2) by simp
  have ok: "\<not> too_large ?x"
    using not_too_large [OF assms(1) _ small] by simp
  have m0: "0 \<le> fst ?x" using assms(1) by (intro round_to_double_nonneg) simp_all
  have sg: "sgn n * fst ?x = fst ?x"
  proof (cases "n = 0")
    case True
    then show ?thesis by (simp add: round_to_double_def)
  next
    case False
    with assms(1) show ?thesis by (simp add: sgn_if)
  qed
  have eq: "py_float_of_int n = Inr (Finite (fst ?x) (snd ?x))"
    using ok sg by (simp add: py_float_of_int_def n Let_def)
  have val: "real_of_int (fst ?x) * 2 powi (snd ?x) < 2 ^ 75"
  proof (cases "n = 0")
    case True
    then show ?thesis by (simp add: round_to_double_def)
  next
    case False
    with assms(1) have pos: "0 < n" by simp
    define e where "e = snd ?x"
    have e: "e \<le> 11"
      using round_to_double_bounds(1) [OF pos _ small] by (simp add: e_def)
    show ?thesis
    proof (cases "0 \<le> e")
      case True
      have "fst ?x \<le> 2 ^ 63"
        using round_to_double_bounds(2) [OF pos _ small] True by (simp add: e_def)
      then have a: "real_of_int (fst ?x) \<le> 2 ^ 63"
        by (metis of_int_le_iff of_int_numeral of_int_power)
      have "(2::real) powi e = 2 ^ nat e" using True by (simp add: power_int_def)
      also have "\<dots> \<le> 2 ^ 11" using e by (intro power_increasing) simp_all
      finally have b: "(2::real) powi e \<le> 2 ^ 11" .
      have "real_of_int (fst ?x) * 2 powi e \<le> 2 ^ 63 * 2 ^ 11"
        using a b m0 by (intro mult_mono) simp_all
      also have "\<dots> < (2::real) ^ 75" by simp
      finally show ?thesis by (simp add: e_def)
    next
      case False
      then have ne: "nat e = 0" by simp
      have "fst ?x = n * 2 ^ nat (- e)"
        using round_to_double_fst [OF pos, of 1]
        by (simp add: e_def [symmetric] ne round_half_even_one)
      then have fx: "real_of_int (fst ?x) = real_of_int n * 2 ^ nat (- e)" by simp
      have pw: "(2::real) powi e = 1 / 2 ^ nat (- e)"
        using two_powi [of e] by (simp add: ne)
      have "real_of_int (fst ?x) * 2 powi e = real_of_int n * 2 ^ nat (- e) / 2 ^ nat (- e)"
        by (simp only: fx pw) simp
      then have "real_of_int (fst ?x) * 2 powi e = real_of_int n" by simp
      moreover have "real_of_int n < 2 ^ 63"
        using assms(2) by (metis of_int_less_iff of_int_numeral of_int_power)
      ultimately have "real_of_int (fst ?x) * 2 powi e < 2 ^ 75" by simp
      then show ?thesis by (simp add: e_def)
    qed
  qed
  from eq m0 val that show thesis by blast
qed

lemma product_finite:
  assumes "0 \<le> m1" and "real_of_int m1 * 2 powi e1 < 2 ^ 75"
    and "0 \<le> m2" and "real_of_int m2 * 2 powi e2 \<le> 1"
  obtains m e where "float_mul (Finite m1 e1) (Finite m2 e2) = Finite m e"
proof -
  let ?s = "e1 + e2"
  let ?num = "\<bar>m1 * m2\<bar> * 2 ^ nat ?s"
  let ?den = "(2::int) ^ nat (- ?s)"
  have p: "0 \<le> m1 * m2" using assms(1,3) by simp
  have "real_of_int (m1 * m2) * 2 powi ?s
          = (real_of_int m1 * 2 powi e1) * (real_of_int m2 * 2 powi e2)"
    by (simp add: power_int_add)
  also have "\<dots> \<le> (real_of_int m1 * 2 powi e1) * 1"
    using assms(1,4) by (intro mult_left_mono) simp_all
  also have "\<dots> < 2 ^ 75" using assms(2) by simp
  finally have v: "real_of_int (m1 * m2) * 2 powi ?s < 2 ^ 75" .
  have "real_of_int ?num = real_of_int (m1 * m2) * 2 ^ nat ?s" using p by simp
  also have "\<dots> = real_of_int (m1 * m2) * 2 powi ?s * 2 ^ nat (- ?s)"
    using two_powi [of ?s] by (simp add: field_simps)
  also have "\<dots> < 2 ^ 75 * 2 ^ nat (- ?s)" using v by simp
  finally have "real_of_int ?num < real_of_int (?den * 2 ^ 75)" by simp
  then have small: "?num < ?den * 2 ^ 75" by (simp only: of_int_less_iff)
  have "0 \<le> ?num" by simp
  moreover have "0 < ?den" by simp
  ultimately have "\<not> too_large (round_to_double ?num ?den)"
    using small by (rule not_too_large) simp
  then show thesis using that by (simp add: Let_def)
qed

lemma trimmed_length_defined:
  assumes "0 \<le> W" and "W < E" and "0 \<le> n" and "n < 2 ^ 63"
  shows "\<exists>k. trimmed_length n W E = Inr k"
proof -
  obtain m2 e2 where f: "py_true_div W E = Inr (Finite m2 e2)" and m2: "0 \<le> m2"
    and v2: "real_of_int m2 * 2 powi e2 \<le> 1"
    using assms(1,2) by (rule fraction_at_most_one)
  obtain m1 e1 where l: "py_float_of_int n = Inr (Finite m1 e1)" and m1: "0 \<le> m1"
    and v1: "real_of_int m1 * 2 powi e1 < 2 ^ 75"
    using assms(3,4) by (rule length_as_float)
  obtain m e where "float_mul (Finite m1 e1) (Finite m2 e2) = Finite m e"
    using m1 v1 m2 v2 by (rule product_finite)
  then show ?thesis by (simp add: trimmed_length_def f l)
qed

text \<open>
  C4, amended. When the file can be read and written and its estimated word count \<open>E\<close>
  exceeds the target \<open>W \<ge> 0\<close>, \<^verbatim>\<open>trim_latex_content\<close> overwrites the file with its first \<open>k\<close>
  lines, where \<open>k \<ge> 0\<close> is what \<^verbatim>\<open>int(L * (W / E))\<close> gives in binary64 arithmetic for the
  number \<open>L\<close> of lines of the file. (\<open>L\<close> is below \<open>2 ^ 63\<close>, as the length of every Python
  list on a 64-bit platform is; the arithmetic then raises nothing.)
\<close>

theorem trim_over_budget:
  assumes "read_text fs p = Inr s"
    and "0 \<le> W" and "W < int (count_words s)"
    and "write_failure fs p = None"
    and "length (readlines s) < 2 ^ 63"
  shows "\<exists>k. trimmed_length (int (length (readlines s))) W (int (count_words s)) = Inr k
           \<and> 0 \<le> k
           \<and> trim_latex_content fs p W =
               (fs\<lparr>read_text := (read_text fs)(p := Inr (concat (take (nat k) (readlines s))))\<rparr>,
                [Trimmed p W])"
proof -
  have "int (length (readlines s)) < 2 ^ 63"
    using assms(5) by (metis of_nat_less_iff of_nat_numeral of_nat_power)
  then obtain k
    where len: "trimmed_length (int (length (readlines s))) W (int (count_words s)) = Inr k"
    using trimmed_length_defined [OF assms(2,3), of "int (length (readlines s))"] by auto
  have k: "0 \<le> k"
    using trimmed_length_nonneg [OF len] assms(2) by simp
  then have "py_slice_to (readlines s) k = take (nat k) (readlines s)"
    by (simp add: py_slice_to_def adjust_index_def)
  then have "trim_latex_content fs p W =
               (fs\<lparr>read_text := (read_text fs)(p := Inr (concat (take (nat k) (readlines s))))\<rparr>,
                [Trimmed p W])"
    using assms(1,3,4) len
    by (simp add: trim_latex_content_def estimate_latex_word_count_def trim_lines_def
        write_text_def Let_def)
  with len k show ?thesis by blast
qed

theorem trim_over_budget_witness:
  "read_text (holding (one_word_lines 22)) (lit ''a.tex'') = Inr (one_word_lines 22)
   \<and> (15::int) < int (count_words (one_word_lines 22))
   \<and> length (readlines (one_word_lines 22)) < 2 ^ 63
   \<and> trimmed_length (int (length (readlines (one_word_lines 22)))) 15
         (int (count_words (one_word_lines 22))) = Inr 14
   \<and> trim_latex_content (holding (one_word_lines 22)) (lit ''a.tex'') 15 =
       ((holding (one_word_lines 22))
          \<lparr>read_text := (read_text (holding (one_word_lines 22)))
              (lit ''a.tex'' := Inr (concat (take 14 (readlines (one_word_lines 22)))))\<rparr>,
        [Trimmed (lit ''a.tex'') 15])"
proof -
  let ?fs = "holding (one_word_lines 22)"
  have r: "read_text ?fs (lit ''a.tex'') = Inr (one_word_lines 22)"
    and w: "write_failure ?fs (lit ''a.tex'') = None"
    by (simp_all add: holding_def)
  have b: "(15::int) < int (count_words (one_word_lines 22))"
    by (simp add: count_one_word_lines)
  have n: "length (readlines (one_word_lines 22)) < 2 ^ 63"
    by (simp add: readlines_one_word_lines)
  have l: "trimmed_length (int (length (readlines (one_word_lines 22)))) 15
             (int (count_words (one_word_lines 22))) = Inr 14"
    by (simp add: count_one_word_lines readlines_one_word_lines length_22)
  have z: "(0::int) \<le> 15" by simp
  show ?thesis
    using trim_over_budget [OF r z b w n] r b n l by auto
qed

section \<open>Properties of \<^verbatim>\<open>extract_pdf_text\<close>\<close>

lemma page_loop_texts:
  "page_loop (map Inr texts) acc = Inr (acc @ embedded_text texts)"
  by (induction texts arbitrary: acc) (simp_all add: embedded_text_def)

lemma image_loop_texts:
  "image_loop (map Inr texts) acc = Inr (acc @ recognised_text texts)"
  by (induction texts arbitrary: acc) (simp_all add: recognised_text_def)

lemma page_loop_failure:
  "Inl e \<in> set pages \<Longrightarrow> \<exists>e'. page_loop pages acc = Inl e'"
  by (induction pages acc rule: page_loop.induct) auto

lemma image_loop_failure:
  "Inl e \<in> set images \<Longrightarrow> \<exists>e'. image_loop images acc = Inl e'"
  by (induction images acc rule: image_loop.induct) auto



text \<open>
  The other ways in which the body raises: a page that cannot be read, a failing
  rasterization, an image that cannot be recognised.
\<close>

lemma hello_page_failure:
  assumes "fitz_open w p = Inr doc" and "Inl e \<in> set (page_texts doc)"
  shows "\<exists>e'. hello_extract_pdf_text w p = Inr (error_marker @ py_str_exception e')"
proof -
  obtain e' where "page_loop (page_texts doc) [] = Inl e'"
    using page_loop_failure [OF assms(2)] by blast
  with assms(1) have "hello_extract_body w p = Inl e'"
    by (simp add: hello_extract_body_def)
  then show ?thesis
    by (auto simp: hello_extract_pdf_text_def catch_extraction_def)
qed

lemma main_page_failure:
  assumes "fitz_open w p = Inr doc"
    and "a \<le> n" and "n < b" and "n < length (page_texts doc)"
    and "page_texts doc ! n = Inl e"
  shows "\<exists>e'. main_extract_pdf_text w p a b = Inr (error_marker @ py_str_exception e')"
proof -
  let ?pages = "map (\<lambda>n. page_texts doc ! n) [a..<min b (length (page_texts doc))]"
  have "n \<in> set [a..<min b (length (page_texts doc))]" using assms(2-4) by simp
  then have "Inl e \<in> set ?pages" using assms(5) by force
  then obtain e' where "page_loop ?pages [] = Inl e'"
    using page_loop_failure by blast
  with assms(1) have "main_extract_body w p a b = Inl e'"
    by (simp add: main_extract_body_def)
  then show ?thesis
    by (auto simp: main_extract_pdf_text_def catch_extraction_def)
qed

lemma ocr_failure:
  assumes "convert_from_path w p r = Inl e"
  shows "ocr_fallback w p r sentinel = Inl e"
  using assms by (simp add: ocr_fallback_def)

lemma ocr_image_failure:
  assumes "convert_from_path w p r = Inr images" and "Inl e \<in> set images"
  shows "\<exists>e'. ocr_fallback w p r sentinel = Inl e'"
proof -
  obtain e' where "image_loop images [] = Inl e'"
    using image_loop_failure [OF assms(2)] by blast
  with assms(1) show ?thesis by (simp add: ocr_fallback_def)
qed

text \<open>
  C7. When the PDF opens, its pages are read and their concatenated text is empty or
  whitespace only, \<^verbatim>\<open>extract_pdf_text\<close> rasterizes the pages and recognises the images in
  order; it returns the recognised text, or, when that too is empty or whitespace only,
  the no-text sentinel of the script. Either way it returns and does not raise. The first
  half is \<^verbatim>\<open>hello.py\<close>, the second \<^verbatim>\<open>main.py\<close> with its page range.
\<close>

theorem ocr_fallback_sentinel:
  "(fitz_open w p = Inr doc \<and> page_texts doc = map Inr texts \<and> close_failure doc = None
      \<and> py_strip (embedded_text texts) = []
      \<and> convert_from_path w p None = Inr (map Inr ocr)
    \<longrightarrow> hello_extract_pdf_text w p =
          Inr (if py_strip (recognised_text ocr) \<noteq> [] then recognised_text ocr else hello_no_text))
   \<and> (fitz_open w p = Inr doc
      \<and> map (\<lambda>n. page_texts doc ! n) [a..<min b (length (page_texts doc))] = map Inr texts
      \<and> close_failure doc = None
      \<and> py_strip (embedded_text texts) = []
      \<and> convert_from_path w p (Some (a + 1, b)) = Inr (map Inr ocr)
    \<longrightarrow> main_extract_pdf_text w p a b =
          Inr (if py_strip (recognised_text ocr) \<noteq> [] then recognised_text ocr
               else main_no_text a b))"
  by (simp add: hello_extract_pdf_text_def main_extract_pdf_text_def
      hello_extract_body_def main_extract_body_def catch_extraction_def ocr_fallback_def
      page_loop_texts image_loop_texts)

lemma blank_pages: "py_strip (embedded_text [[], lit ''  '']) = []"
  by (simp add: embedded_text_def py_strip_def py_isspace_def lit_def)

lemma blank_ocr: "py_strip (recognised_text [lit '' '', []]) = []"
  by (simp add: recognised_text_def py_strip_def py_isspace_def lit_def)

theorem ocr_fallback_sentinel_witness:
  "py_strip (embedded_text [[], lit ''  '']) = []
   \<and> hello_extract_pdf_text (scanned [[], lit ''  ''] [lit '' '', []]) (lit ''EP39.pdf'')
       = Inr hello_no_text
   \<and> main_extract_pdf_text (scanned [[], lit ''  ''] [lit '' '', []]) (lit ''EP39.pdf'') 0 76
       = Inr (main_no_text 0 76)"
proof -
  let ?w = "scanned [[], lit ''  ''] [lit '' '', []]"
  let ?doc = "\<lparr>page_texts = map Inr [[], lit ''  ''], close_failure = None\<rparr>"
  have o: "fitz_open ?w (lit ''EP39.pdf'') = Inr ?doc"
    and c1: "convert_from_path ?w (lit ''EP39.pdf'') None = Inr (map Inr [lit '' '', []])"
    and c2: "convert_from_path ?w (lit ''EP39.pdf'') (Some (0 + 1, 76)) = Inr (map Inr [lit '' '', []])"
    by (simp_all add: scanned_def)
  have r: "map (\<lambda>n. page_texts ?doc ! n) [0..<min 76 (length (page_texts ?doc))]
            = map Inr [[], lit ''  '']"
    by (simp add: upt_rec)
  show ?thesis
    using ocr_fallback_sentinel [of ?w "lit ''EP39.pdf''" ?doc "[[], lit ''  '']" "[lit '' '', []]" 0 76]
      o c1 c2 r blank_pages blank_ocr
    by simp
qed

section \<open>Properties of \<^verbatim>\<open>process_clsi_guideline\<close>\<close>

lemma contains_prefix: "py_contains needle (needle @ rest) = True"
proof (cases "needle @ rest")
  case Nil
  then show ?thesis by simp
next
  case (Cons c cs)
  have "take (length needle) (needle @ rest) = needle" by simp
  then have "take (length needle) (c # cs) = needle" by (simp only: Cons)
  then have "py_contains needle (c # cs)" by simp
  then show ?thesis by (simp only: Cons)
qed

lemma marker_contains_Error: "py_contains (lit ''Error'') (error_marker @ msg)"
proof -
  have "error_marker @ msg = lit ''Error'' @ (lit '' extracting text from PDF: '' @ msg)"
    by (simp add: error_marker_def lit_def)
  then show ?thesis by (simp only: contains_prefix)
qed

lemma main_no_text_0_76:
  "main_no_text 0 76 = lit ''No text extracted from pages 1'' @ [8211] @ lit ''76 via OCR.''"
  by (simp add: main_no_text_def lit_def str_nat.simps)

lemma main_no_text_passes:
  "\<not> py_contains (lit ''Error'') (main_no_text 0 76) \<and> py_strip (main_no_text 0 76) \<noteq> []"
  by (simp add: main_no_text_0_76 lit_def py_strip_def py_isspace_def)

lemma valid_path_failing_open:
  "validate_pdf (failing_open e) (lit ''EP39.pdf'') = Proceeds True"
  by (simp add: validate_pdf_def failing_open_def py_endswith_def py_lower_def lit_def)

lemma valid_path_scanned:
  "validate_pdf (scanned texts ocr) (lit ''EP39.pdf'') = Proceeds True"
  by (simp add: validate_pdf_def scanned_def py_endswith_def py_lower_def lit_def)

lemma scanned_blank_main:
  "main_extract_pdf_text (scanned [[], lit ''  ''] [lit '' '', []]) (lit ''EP39.pdf'') 0 76
     = Inr (main_no_text 0 76)"
proof -
  have "[0..<min 76 (length (map Inr [[], lit ''  ''] :: (py_error + pystr) list))] = [0, 1]"
    by (simp add: upt_rec)
  then have "map (\<lambda>n. (map Inr [[], lit ''  ''] :: (py_error + pystr) list) ! n)
               [0..<min 76 (length (map Inr [[], lit ''  ''] :: (py_error + pystr) list))]
             = map Inr [[], lit ''  '']"
    by simp
  then show ?thesis
    by (simp add: main_extract_pdf_text_def main_extract_body_def catch_extraction_def
        ocr_fallback_def scanned_def py_strip_def py_isspace_def lit_def)
qed

text \<open>
  C3, as the claim states it, fails for \<^verbatim>\<open>main.py\<close>. The path is valid and the PDF cannot be
  opened; \<^verbatim>\<open>extract_pdf_text\<close> returns the error string, and \<^verbatim>\<open>process_clsi_guideline\<close>
  exits with status 1 instead of passing the string to \<^verbatim>\<open>create_tasks\<close> (here \<open>Pair\<close>, which
  would return its two arguments).
\<close>

theorem main_exits_on_extraction_error:
  "validate_pdf (failing_open (Failure (lit ''no such file''))) (lit ''EP39.pdf'') = Proceeds True
   \<and> main_extract_pdf_text (failing_open (Failure (lit ''no such file''))) (lit ''EP39.pdf'') 0 76
       = Inr (error_marker @ lit ''no such file'')
   \<and> main_process_clsi_guideline (failing_open (Failure (lit ''no such file''))) Pair
         (lit ''EP39.pdf'')
       = SysExit 1"
proof -
  let ?w = "failing_open (Failure (lit ''no such file''))"
  have x: "main_extract_pdf_text ?w (lit ''EP39.pdf'') 0 76 = Inr (error_marker @ lit ''no such file'')"
    by (simp add: main_extract_pdf_text_def main_extract_body_def catch_extraction_def
        failing_open_def)
  show ?thesis
    using valid_path_failing_open [of "Failure (lit ''no such file'')"] x
      marker_contains_Error [of "lit ''no such file''"]
    by (simp add: main_process_clsi_guideline_def)
qed

text \<open>
  C3, amended. For a valid path, \<^verbatim>\<open>process_clsi_guideline\<close> of \<^verbatim>\<open>hello.py\<close> does not exit on
  the result of the extraction: whatever string \<^verbatim>\<open>extract_pdf_text\<close> returns, the error string
  of a failed extraction included, is passed to \<^verbatim>\<open>create_tasks\<close>. In \<^verbatim>\<open>main.py\<close> the no-text
  sentinel is passed to \<^verbatim>\<open>create_tasks\<close> as well, but a failed extraction makes
  \<^verbatim>\<open>process_clsi_guideline\<close> exit with status 1.
\<close>

theorem extraction_result_downstream:
  assumes "validate_pdf w p = Proceeds True"
  shows "(\<exists>s. hello_extract_pdf_text w p = Inr s
            \<and> hello_process_clsi_guideline w create_tasks p
                = Proceeds (create_tasks s (path_stem w p)))
       \<and> (hello_extract_body w p = Inl e \<longrightarrow>
            hello_process_clsi_guideline w create_tasks p
              = Proceeds (create_tasks (error_marker @ py_str_exception e) (path_stem w p)))
       \<and> (main_extract_pdf_text w p 0 76 = Inr (main_no_text 0 76) \<longrightarrow>
            main_process_clsi_guideline w create_tasks p
              = Proceeds (create_tasks (main_no_text 0 76) (path_stem w p)))
       \<and> (main_extract_body w p 0 76 = Inl e \<longrightarrow>
            main_process_clsi_guideline w create_tasks p = SysExit 1)"
proof -
  obtain s where s: "hello_extract_pdf_text w p = Inr s"
    by (cases "hello_extract_body w p")
       (simp_all add: hello_extract_pdf_text_def catch_extraction_def)
  have one: "hello_process_clsi_guideline w create_tasks p
               = Proceeds (create_tasks s (path_stem w p))"
    using assms s by (simp add: hello_process_clsi_guideline_def)
  have two: "hello_process_clsi_guideline w create_tasks p
               = Proceeds (create_tasks (error_marker @ py_str_exception e) (path_stem w p))"
    if "hello_extract_body w p = Inl e"
    using assms that
    by (simp add: hello_process_clsi_guideline_def hello_extract_pdf_text_def catch_extraction_def)
  have three: "main_process_clsi_guideline w create_tasks p
               = Proceeds (create_tasks (main_no_text 0 76) (path_stem w p))"
    if "main_extract_pdf_text w p 0 76 = Inr (main_no_text 0 76)"
    using assms that main_no_text_passes
    by (simp add: main_process_clsi_guideline_def)
  have four: "main_process_clsi_guideline w create_tasks p = SysExit 1"
    if "main_extract_body w p 0 76 = Inl e"
    using assms that marker_contains_Error [of "py_str_exception e"]
    by (simp add: main_process_clsi_guideline_def main_extract_pdf_text_def catch_extraction_def)
  from s one two three four show ?thesis by blast
qed

theorem extraction_result_downstream_witness:
  "validate_pdf (failing_open (Failure (lit ''no such file''))) (lit ''EP39.pdf'') = Proceeds True
   \<and> hello_process_clsi_guideline (failing_open (Failure (lit ''no such file''))) Pair
         (lit ''EP39.pdf'')
       = Proceeds (error_marker @ lit ''no such file'', lit ''EP39.pdf'')
   \<and> main_process_clsi_guideline (failing_open (Failure (lit ''no such file''))) Pair
         (lit ''EP39.pdf'')
       = SysExit 1
   \<and> validate_pdf (scanned [[], lit ''  ''] [lit '' '', []]) (lit ''EP39.pdf'') = Proceeds True
   \<and> main_process_clsi_guideline (scanned [[], lit ''  ''] [lit '' '', []]) Pair (lit ''EP39.pdf'')
       = Proceeds (main_no_text 0 76, lit ''EP39.pdf'')"
proof -
  let ?e = "Failure (lit ''no such file'')"
  let ?w = "failing_open ?e"
  let ?v = "scanned [[], lit ''  ''] [lit '' '', []]"
  let ?p = "lit ''EP39.pdf''"
  have v1: "validate_pdf ?w ?p = Proceeds True" by (rule valid_path_failing_open)
  have v2: "validate_pdf ?v ?p = Proceeds True" by (rule valid_path_scanned)
  have b1: "hello_extract_body ?w ?p = Inl ?e"
    by (simp add: hello_extract_body_def failing_open_def)
  have b2: "main_extract_body ?w ?p 0 76 = Inl ?e"
    by (simp add: main_extract_body_def failing_open_def)
  have s1: "path_stem ?w ?p = ?p" by (simp add: failing_open_def)
  have s2: "path_stem ?v ?p = ?p" by (simp add: scanned_def)
  show ?thesis
    using extraction_result_downstream [OF v1, of Pair ?e]
      extraction_result_downstream [OF v2, of Pair ?e] v1 v2 b1 b2 scanned_blank_main s1 s2
    by simp
qed

end
